theory Spec2Isabelle
  imports Main "HOL-Library.Word"
begin

section \<open>NFcore.hh: the ComplexList public iterator\<close>

text \<open>
  \<^verbatim>\<open>class ComplexList\<close> keeps \<^verbatim>\<open>std::vector <Complex *> allComplexes\<close> and a private
  \<^verbatim>\<open>std::vector <Complex *>::iterator complexIter_public\<close>.  A \<^verbatim>\<open>Complex *\<close> is modelled
  as its address, a natural number, the null pointer being \<open>0\<close>.  The iterator is modelled
  as its distance from \<^verbatim>\<open>allComplexes.begin()\<close>, so \<^verbatim>\<open>allComplexes.end()\<close> is the length of
  the vector and \<^verbatim>\<open>complexIter_public < allComplexes.end()\<close> compares the two positions.
\<close>

type_synonym Complex_ptr = nat

record ComplexList =
  allComplexes :: "Complex_ptr list"
  complexIter_public :: nat
  useComplex :: bool

text \<open>\<^verbatim>\<open>bool isUsingComplex ( ) const { return useComplex; }\<close>\<close>

definition isUsingComplex :: "ComplexList \<Rightarrow> bool" where
  "isUsingComplex cl = useComplex cl"

text \<open>\<^verbatim>\<open>void setUseComplex ( bool _useComplex ) { useComplex = _useComplex; }\<close>\<close>

definition setUseComplex :: "bool \<Rightarrow> ComplexList \<Rightarrow> ComplexList" where
  "setUseComplex b cl = cl\<lparr>useComplex := b\<rparr>"

text \<open>\<^verbatim>\<open>void resetComplexIter() {  complexIter_public = allComplexes.begin();  };\<close>\<close>

definition resetComplexIter :: "ComplexList \<Rightarrow> ComplexList" where
  "resetComplexIter cl = cl\<lparr>complexIter_public := 0\<rparr>"

text \<open>
  \<^verbatim>\<open>Complex * nextComplex() {
     return (complexIter_public < allComplexes.end() ? *complexIter_public++ : 0);  };\<close>
  The post-increment happens only in the first branch; the second branch returns the null
  pointer and leaves the iterator where it is.
\<close>

definition nextComplex :: "ComplexList \<Rightarrow> Complex_ptr \<times> ComplexList" where
  "nextComplex cl =
     (if complexIter_public cl < length (allComplexes cl)
      then (allComplexes cl ! complexIter_public cl,
            cl\<lparr>complexIter_public := complexIter_public cl + 1\<rparr>)
      else (0, cl))"

text \<open>\<open>k\<close> successive calls of \<^verbatim>\<open>nextComplex()\<close>: the pointers returned, in call order, and
  the list object afterwards.\<close>

fun nextComplex_calls :: "nat \<Rightarrow> ComplexList \<Rightarrow> Complex_ptr list \<times> ComplexList" where
  "nextComplex_calls 0 cl = ([], cl)"
| "nextComplex_calls (Suc k) cl =
     (case nextComplex cl of
        (p, cl') \<Rightarrow> (case nextComplex_calls k cl' of (ps, cl'') \<Rightarrow> (p # ps, cl'')))"

section \<open>NFcore.hh: the reaction membership sets of a Molecule\<close>

text \<open>
  \<^verbatim>\<open>std::set<int>\<close> is an ordered container of distinct keys: it is modelled as the list of
  its elements in iteration order, strictly ascending.  The identifiers are C++ \<^verbatim>\<open>int\<close>s
  that are only compared and stored, never computed with, so they are modelled as \<open>int\<close>.
\<close>

text \<open>\<^verbatim>\<open>s.insert(x)\<close>: the container afterwards and the \<^verbatim>\<open>second\<close> component of the
  returned pair (true when the key was new).\<close>

fun std_set_insert :: "int \<Rightarrow> int list \<Rightarrow> int list \<times> bool" where
  "std_set_insert x [] = ([x], True)"
| "std_set_insert x (y # ys) =
     (if x = y then (y # ys, False)
      else if x < y then (x # y # ys, True)
      else (y # fst (std_set_insert x ys), snd (std_set_insert x ys)))"

text \<open>\<^verbatim>\<open>s.erase(x)\<close> by key.\<close>

fun std_set_erase :: "int \<Rightarrow> int list \<Rightarrow> int list" where
  "std_set_erase x [] = []"
| "std_set_erase x (y # ys) = (if x = y then ys else y # std_set_erase x ys)"

text \<open>
  The fields of \<^verbatim>\<open>class Molecule\<close> that the modelled member functions read or write.
  \<^verbatim>\<open>Molecule **bond\<close> holds, per component, a pointer to the partner molecule or the null
  pointer (\<^verbatim>\<open>NOBOND = 0\<close>): a molecule is referred to by its position in the molecule
  store, and the null pointer is \<open>None\<close>.  \<^verbatim>\<open>int *indexOfBond\<close> gives the partner's
  component index (\<^verbatim>\<open>NOINDEX = -1\<close> when there is none).
  \<^verbatim>\<open>std::set<int>* rxnListMappingId2\<close> is an array of \<^verbatim>\<open>nReactions\<close> sets.
\<close>

type_synonym Molecule_ptr = nat

record Molecule =
  ID_complex :: int
  ID_unique :: int
  listId :: int
  isAliveInSim :: bool
  component :: "int list"
  bond :: "Molecule_ptr option list"
  indexOfBond :: "int list"
  isObservable :: "int list"
  rxnListMappingId2 :: "int list list"

text \<open>\<^verbatim>\<open>static const int NOT_IN_RXN = -1;\<close>, \<^verbatim>\<open>static const int NOSTATE = -1;\<close>,
  \<^verbatim>\<open>static const int NOINDEX = -1;\<close>\<close>

definition NOT_IN_RXN :: int where
  "NOT_IN_RXN = - 1"

definition NOSTATE :: int where
  "NOSTATE = - 1"

definition NOINDEX :: int where
  "NOINDEX = - 1"

text \<open>
  \<^verbatim>\<open>rxnListMappingId2[rxnIndex]\<close> with an \<^verbatim>\<open>int\<close> index into a heap array: outside
  \<open>0 \<dots> nReactions - 1\<close> the access is undefined behaviour, which the model reports as
  \<open>None\<close>.
\<close>

definition rxnSetAt :: "Molecule \<Rightarrow> int \<Rightarrow> int list option" where
  "rxnSetAt m rxnIndex =
     (if 0 \<le> rxnIndex \<and> rxnIndex < int (length (rxnListMappingId2 m))
      then Some (rxnListMappingId2 m ! nat rxnIndex) else None)"

text \<open>
  \<^verbatim>\<open>int getRxnListMappingId(int rxnIndex) {
     return (rxnListMappingId2[rxnIndex].size() > 0) ? *rxnListMappingId2[rxnIndex].begin() : -1; };\<close>
\<close>

definition getRxnListMappingId :: "Molecule \<Rightarrow> int \<Rightarrow> int option" where
  "getRxnListMappingId m rxnIndex =
     (case rxnSetAt m rxnIndex of
        None \<Rightarrow> None
      | Some s \<Rightarrow> Some (if 0 < length s then hd s else - 1))"

text \<open>\<^verbatim>\<open>std::set<int> getRxnListMappingSet(int rxnIndex){ return rxnListMappingId2[rxnIndex]; }\<close>\<close>

definition getRxnListMappingSet :: "Molecule \<Rightarrow> int \<Rightarrow> int list option" where
  "getRxnListMappingSet m rxnIndex = rxnSetAt m rxnIndex"

text \<open>
  \<^verbatim>\<open>bool setRxnListMappingId(int rxnIndex, int rxnListMappingId) {
     if(rxnListMappingId == -1){
        this->rxnListMappingId2[rxnIndex].clear();
        return true;
     }
     else{
        std::pair<std::set<int>::iterator,bool> it =
            this->rxnListMappingId2[rxnIndex].insert(rxnListMappingId);
        return it.second;
     } };\<close>
  The result is the returned flag and the molecule afterwards.
\<close>

definition setRxnListMappingId :: "Molecule \<Rightarrow> int \<Rightarrow> int \<Rightarrow> (bool \<times> Molecule) option" where
  "setRxnListMappingId m rxnIndex rxnListMappingId =
     (case rxnSetAt m rxnIndex of
        None \<Rightarrow> None
      | Some s \<Rightarrow>
          if rxnListMappingId = - 1
          then Some (True, m\<lparr>rxnListMappingId2 := (rxnListMappingId2 m)[nat rxnIndex := []]\<rparr>)
          else Some (snd (std_set_insert rxnListMappingId s),
                     m\<lparr>rxnListMappingId2 :=
                         (rxnListMappingId2 m)[nat rxnIndex := fst (std_set_insert rxnListMappingId s)]\<rparr>))"

text \<open>
  \<^verbatim>\<open>void deleteRxnListMappingId(int rxnIndex, int rxnListMappingId){
     rxnListMappingId2[rxnIndex].erase(rxnListMappingId); }\<close>
\<close>

definition deleteRxnListMappingId :: "Molecule \<Rightarrow> int \<Rightarrow> int \<Rightarrow> Molecule option" where
  "deleteRxnListMappingId m rxnIndex rxnListMappingId =
     (case rxnSetAt m rxnIndex of
        None \<Rightarrow> None
      | Some s \<Rightarrow>
          Some (m\<lparr>rxnListMappingId2 :=
                    (rxnListMappingId2 m)[nat rxnIndex := std_set_erase rxnListMappingId s]\<rparr>))"

text \<open>
  The two member functions of the header that write \<^verbatim>\<open>rxnListMappingId2\<close>, as calls, and
  a sequence of such calls on one molecule (stopping at an undefined access).
\<close>

datatype rxn_call =
    SetRxnListMappingId int int
  | DeleteRxnListMappingId int int

fun rxn_call_on :: "rxn_call \<Rightarrow> Molecule \<Rightarrow> Molecule option" where
  "rxn_call_on (SetRxnListMappingId r i) m = map_option snd (setRxnListMappingId m r i)"
| "rxn_call_on (DeleteRxnListMappingId r i) m = deleteRxnListMappingId m r i"

fun rxn_calls_on :: "rxn_call list \<Rightarrow> Molecule \<Rightarrow> Molecule option" where
  "rxn_calls_on [] m = Some m"
| "rxn_calls_on (c # cs) m =
     (case rxn_call_on c m of None \<Rightarrow> None | Some m' \<Rightarrow> rxn_calls_on cs m')"

text \<open>Other inline accessors of \<^verbatim>\<open>class Molecule\<close>.\<close>

definition isAlive :: "Molecule \<Rightarrow> bool" where
  "isAlive m = isAliveInSim m"

definition setAlive :: "bool \<Rightarrow> Molecule \<Rightarrow> Molecule" where
  "setAlive b m = m\<lparr>isAliveInSim := b\<rparr>"

definition getUniqueID :: "Molecule \<Rightarrow> int" where
  "getUniqueID m = ID_unique m"

text \<open>\<^verbatim>\<open>void setComplexID(int currentComplex) { this->ID_complex=currentComplex; }\<close>\<close>

definition setComplexID :: "int \<Rightarrow> Molecule \<Rightarrow> Molecule" where
  "setComplexID currentComplex m = m\<lparr>ID_complex := currentComplex\<rparr>"

text \<open>\<^verbatim>\<open>void moveToNewComplex(int newComplexID) { ID_complex = newComplexID; };\<close>\<close>

definition moveToNewComplex :: "int \<Rightarrow> Molecule \<Rightarrow> Molecule" where
  "moveToNewComplex newComplexID m = m\<lparr>ID_complex := newComplexID\<rparr>"

text \<open>\<^verbatim>\<open>void setIsObs(int oIndex, int isObs) { isObservable[oIndex]=isObs; };\<close>
  An index outside the array is undefined behaviour, reported as \<open>None\<close>.\<close>

definition setIsObs :: "int \<Rightarrow> int \<Rightarrow> Molecule \<Rightarrow> Molecule option" where
  "setIsObs oIndex isObs m =
     (if 0 \<le> oIndex \<and> oIndex < int (length (isObservable m))
      then Some (m\<lparr>isObservable := (isObservable m)[nat oIndex := isObs]\<rparr>) else None)"

section \<open>Bonds between molecules\<close>

text \<open>
  \<^verbatim>\<open>Molecule::bind\<close> and \<^verbatim>\<open>Molecule::unbind\<close> are declared in NFcore.hh as static member
  functions; their bodies are in a source file that is not part of the sources at hand.
  They are modelled on the molecule store, a list of molecules in which a molecule is
  referred to by its position.  Only the bond arrays are modelled: the complex
  bookkeeping that the two functions also trigger does not touch \<^verbatim>\<open>bond\<close> or
  \<^verbatim>\<open>indexOfBond\<close>.  \<^verbatim>\<open>setBondTo\<close>, declared next to them, has no body in the header and
  is not described by the specification; it is not modelled.
\<close>

datatype bond_error = SiteOccupied | SiteUnbound | InvalidSite

text \<open>Component \<open>i\<close> of molecule \<open>m\<close> exists in the store: both arrays can be indexed
  there.  Anything else is an out-of-range access (\<open>InvalidSite\<close>).\<close>

definition site_exists :: "Molecule list \<Rightarrow> Molecule_ptr \<Rightarrow> nat \<Rightarrow> bool" where
  "site_exists st m i =
     (m < length st \<and> i < length (bond (st ! m)) \<and> i < length (indexOfBond (st ! m)))"

text \<open>Writing one half of a doubly linked edge: \<^verbatim>\<open>m->bond[i] = partner; m->indexOfBond[i] = j;\<close>\<close>

definition set_half_edge ::
    "Molecule list \<Rightarrow> Molecule_ptr \<Rightarrow> nat \<Rightarrow> Molecule_ptr option \<Rightarrow> int \<Rightarrow> Molecule list" where
  "set_half_edge st m i partner j =
     st[m := (st ! m)\<lparr>bond := (bond (st ! m))[i := partner],
                      indexOfBond := (indexOfBond (st ! m))[i := j]\<rparr>]"

text \<open>
  Modelled from the spec: the body of \<^verbatim>\<open>Molecule::bind(Molecule *m1, int cIndex1,
  Molecule *m2, int cIndex2)\<close> is missing.  Section 4.1: ``\<^verbatim>\<open>bind(m1,i,m2,j)\<close>. Pre: both
  sites open. Post: symmetric edge set [...] Fails with \<^verbatim>\<open>SiteOccupied\<close> if either side is
  bonded.''  Section 3: ``\<^verbatim>\<open>bond[i]\<close> = reference to partner molecule or NONE;
  \<^verbatim>\<open>indexOfBond[i]\<close> = partner's component index (the edge is doubly linked).''
\<close>

definition bind ::
    "Molecule list \<Rightarrow> Molecule_ptr \<Rightarrow> nat \<Rightarrow> Molecule_ptr \<Rightarrow> nat \<Rightarrow> bond_error + Molecule list" where
  "bind st m1 cIndex1 m2 cIndex2 =
     (if \<not> site_exists st m1 cIndex1 \<or> \<not> site_exists st m2 cIndex2 then Inl InvalidSite
      else if bond (st ! m1) ! cIndex1 \<noteq> None \<or> bond (st ! m2) ! cIndex2 \<noteq> None
      then Inl SiteOccupied
      else Inr (set_half_edge
                 (set_half_edge st m1 cIndex1 (Some m2) (int cIndex2))
                 m2 cIndex2 (Some m1) (int cIndex1)))"

text \<open>
  Modelled from the spec: the body of \<^verbatim>\<open>Molecule::unbind(Molecule *m1, int bSiteIndex)\<close>
  is missing.  Section 4.1: ``\<^verbatim>\<open>unbind(m1,i)\<close>. Pre: site bonded. Post: edge removed [...]
  returns \<^verbatim>\<open>(partner_uid, partner_component)\<close> for logging''; section 7 names the failure
  on an open site \<^verbatim>\<open>SiteUnbound\<close>.  Removing the edge clears both of its halves, the
  partner's being found through \<^verbatim>\<open>indexOfBond\<close>.
\<close>

definition unbind ::
    "Molecule list \<Rightarrow> Molecule_ptr \<Rightarrow> nat \<Rightarrow> bond_error + (Molecule list \<times> int \<times> int)" where
  "unbind st m1 bSiteIndex =
     (if \<not> site_exists st m1 bSiteIndex then Inl InvalidSite
      else case bond (st ! m1) ! bSiteIndex of
             None \<Rightarrow> Inl SiteUnbound
           | Some m2 \<Rightarrow>
               let cIndex2 = indexOfBond (st ! m1) ! bSiteIndex in
               if cIndex2 < 0 \<or> \<not> site_exists st m2 (nat cIndex2) then Inl InvalidSite
               else Inr (set_half_edge
                          (set_half_edge st m1 bSiteIndex None NOINDEX)
                          m2 (nat cIndex2) None NOINDEX,
                         ID_unique (st ! m2), cIndex2))"

text \<open>\<^verbatim>\<open>int getComponentIndexOfBond(int cIndex) const { return indexOfBond[cIndex]; };\<close>\<close>

definition getComponentIndexOfBond :: "Molecule \<Rightarrow> int \<Rightarrow> int option" where
  "getComponentIndexOfBond m cIndex =
     (if 0 \<le> cIndex \<and> cIndex < int (length (indexOfBond m))
      then Some (indexOfBond m ! nat cIndex) else None)"

text \<open>
  Bond symmetry (invariant I1 of the specification): for every live molecule \<open>m\<close> of the
  store and every component \<open>i\<close> of it, if the bond at \<open>i\<close> points to molecule \<open>n\<close> at
  component \<open>j\<close>, then \<open>j\<close> is a component of \<open>n\<close> whose bond points back to \<open>m\<close> at \<open>i\<close>.
\<close>

definition half_edge_symmetric :: "Molecule list \<Rightarrow> Molecule_ptr \<Rightarrow> nat \<Rightarrow> bool" where
  "half_edge_symmetric st m i =
     (case bond (st ! m) ! i of
        None \<Rightarrow> True
      | Some n \<Rightarrow>
          let j = indexOfBond (st ! m) ! i in
          0 \<le> j \<and> site_exists st n (nat j)
          \<and> bond (st ! n) ! nat j = Some m \<and> indexOfBond (st ! n) ! nat j = int i)"

definition bond_symmetric :: "Molecule list \<Rightarrow> bool" where
  "bond_symmetric st =
     list_all (\<lambda>m. isAliveInSim (st ! m) \<longrightarrow>
                 list_all (half_edge_symmetric st m) [0..<length (bond (st ! m))])
       [0..<length st]"

text \<open>
  The same symmetry for every molecule of the store, alive or retired.  It implies the
  symmetry of the live molecules and, unlike it, does not depend on the \<^verbatim>\<open>isAliveInSim\<close>
  flags.
\<close>

definition bond_symmetric_all :: "Molecule list \<Rightarrow> bool" where
  "bond_symmetric_all st =
     list_all (\<lambda>m. list_all (half_edge_symmetric st m) [0..<length (bond (st ! m))])
       [0..<length st]"

text \<open>
  Modelled from the spec: the constructor \<^verbatim>\<open>Molecule::Molecule\<close> and
  \<^verbatim>\<open>MoleculeType::genDefaultMolecule\<close> are only declared.  Section 4.2: ``Create: on birth
  of a free molecule''; section 3: ``\<^verbatim>\<open>bond[i]\<close> = reference to partner molecule or NONE''.
  A molecule is born free: each of its components has no partner (\<^verbatim>\<open>NOINDEX\<close> as the
  partner's index), and it is added at the end of the store.
\<close>

definition born_free :: "Molecule \<Rightarrow> Molecule" where
  "born_free m =
     m\<lparr>bond := replicate (length (component m)) None,
       indexOfBond := replicate (length (component m)) NOINDEX\<rparr>"

definition addMolecule :: "Molecule list \<Rightarrow> Molecule \<Rightarrow> Molecule list" where
  "addMolecule st m = st @ [born_free m]"

text \<open>
  The operations on the molecule store: the creation of a molecule, \<^verbatim>\<open>bind\<close>,
  \<^verbatim>\<open>unbind\<close>, and the inline setters of \<^verbatim>\<open>class Molecule\<close> called on the molecule at
  position \<open>k\<close>.  A call on a molecule that is not in the store, or one whose array
  access is out of range, is an error; a sequence of operations stops at the first error.
\<close>

datatype store_op =
    Op_addMolecule Molecule
  | Op_bind Molecule_ptr nat Molecule_ptr nat
  | Op_unbind Molecule_ptr nat
  | Op_setAlive Molecule_ptr bool
  | Op_setComplexID Molecule_ptr int
  | Op_moveToNewComplex Molecule_ptr int
  | Op_setIsObs Molecule_ptr int int
  | Op_setRxnListMappingId Molecule_ptr int int
  | Op_deleteRxnListMappingId Molecule_ptr int int

definition on_molecule ::
    "Molecule list \<Rightarrow> Molecule_ptr \<Rightarrow> (Molecule \<Rightarrow> Molecule option) \<Rightarrow> bond_error + Molecule list" where
  "on_molecule st k f =
     (if k < length st
      then (case f (st ! k) of None \<Rightarrow> Inl InvalidSite | Some m' \<Rightarrow> Inr (st[k := m']))
      else Inl InvalidSite)"

fun store_op_on :: "store_op \<Rightarrow> Molecule list \<Rightarrow> bond_error + Molecule list" where
  "store_op_on (Op_addMolecule m) st = Inr (addMolecule st m)"
| "store_op_on (Op_bind m1 c1 m2 c2) st = bind st m1 c1 m2 c2"
| "store_op_on (Op_unbind m1 c) st = map_sum id fst (unbind st m1 c)"
| "store_op_on (Op_setAlive k b) st = on_molecule st k (\<lambda>m. Some (setAlive b m))"
| "store_op_on (Op_setComplexID k c) st = on_molecule st k (\<lambda>m. Some (setComplexID c m))"
| "store_op_on (Op_moveToNewComplex k c) st = on_molecule st k (\<lambda>m. Some (moveToNewComplex c m))"
| "store_op_on (Op_setIsObs k oi v) st = on_molecule st k (setIsObs oi v)"
| "store_op_on (Op_setRxnListMappingId k r i) st =
     on_molecule st k (\<lambda>m. map_option snd (setRxnListMappingId m r i))"
| "store_op_on (Op_deleteRxnListMappingId k r i) st =
     on_molecule st k (\<lambda>m. deleteRxnListMappingId m r i)"

fun store_ops_on :: "store_op list \<Rightarrow> Molecule list \<Rightarrow> bond_error + Molecule list" where
  "store_ops_on [] st = Inr st"
| "store_ops_on (c # cs) st =
     (case store_op_on c st of Inl e \<Rightarrow> Inl e | Inr st' \<Rightarrow> store_ops_on cs st')"

text \<open>The pair stored for component \<open>i\<close> of molecule \<open>m\<close>.\<close>

definition half_edge :: "Molecule list \<Rightarrow> Molecule_ptr \<Rightarrow> nat \<Rightarrow> (Molecule_ptr option \<times> int)" where
  "half_edge st m i = (bond (st ! m) ! i, indexOfBond (st ! m) ! i)"

text \<open>The invariant kept by the two writers of \<^verbatim>\<open>rxnListMappingId2\<close>: every set is a
  \<^verbatim>\<open>std::set\<close> (strictly ascending) and none holds \<open>-1\<close>.\<close>

definition rxn_sets_ok :: "Molecule \<Rightarrow> bool" where
  "rxn_sets_ok m = list_all (\<lambda>s. sorted_wrt (<) s \<and> - 1 \<notin> set s) (rxnListMappingId2 m)"

section \<open>Error exits\<close>

text \<open>
  \<^verbatim>\<open>exit(n)\<close> ends the process with status \<open>n\<close>; a call either returns a value or exits.
  What was written to \<^verbatim>\<open>cout\<close> and \<^verbatim>\<open>cerr\<close> is kept as the list of lines.
\<close>

datatype 'a outcome = Returned 'a | Exited int

record Console =
  cout :: "string list"
  cerr :: "string list"

text \<open>
  \<^verbatim>\<open>virtual int getDORreactantPosition() const {
     cerr<<"Trying to get DOR reactant Position from a reaction that is not of type DOR!"<<endl;
     cerr<<"this is an internal error, and so I will quit."<<endl; exit(1); return -1; };\<close>
  This is the implementation in the base class \<^verbatim>\<open>ReactionClass\<close>, the one that runs for a
  reaction that is not of type DOR.
\<close>

definition getDORreactantPosition :: "Console \<Rightarrow> Console \<times> int outcome" where
  "getDORreactantPosition con =
     (con\<lparr>cerr := cerr con @
         [''Trying to get DOR reactant Position from a reaction that is not of type DOR!'',
          ''this is an internal error, and so I will quit.'']\<rparr>,
      Exited 1)"

text \<open>
  \<^verbatim>\<open>virtual int getDORreactantPosition2() const {
     cerr<<"Trying to get DOR reactant Position2 from a reaction that is not of type DOR2!"<<endl;
     cerr<<"this is an internal error, and so I will quit."<<endl; exit(1); return -1; };\<close>
\<close>

definition getDORreactantPosition2 :: "Console \<Rightarrow> Console \<times> int outcome" where
  "getDORreactantPosition2 con =
     (con\<lparr>cerr := cerr con @
         [''Trying to get DOR reactant Position2 from a reaction that is not of type DOR2!'',
          ''this is an internal error, and so I will quit.'']\<rparr>,
      Exited 1)"

text \<open>
  \<^verbatim>\<open>void getLocalFunction(std::string funcName) const {
     cout<<"getLocalFunction not yet implemented."<<endl;exit(1);};\<close>
\<close>

definition getLocalFunction :: "string \<Rightarrow> Console \<Rightarrow> Console \<times> unit outcome" where
  "getLocalFunction funcName con =
     (con\<lparr>cout := cout con @ [''getLocalFunction not yet implemented.'']\<rparr>, Exited 1)"

text \<open>
  The exit statuses as the specification words them: ``model-validation failures exit 1;
  runtime invariants that imply a bug exit 2''.  This definition follows the
  specification, not the code.
\<close>

datatype failure_kind = ModelValidation | InternalBug

fun spec_exit_code :: "failure_kind \<Rightarrow> int" where
  "spec_exit_code ModelValidation = 1"
| "spec_exit_code InternalBug = 2"

definition empty_console :: Console where
  "empty_console = \<lparr>cout = [], cerr = []\<rparr>"

section \<open>Static counters\<close>

text \<open>
  \<^verbatim>\<open>static int NULL_EVENT_COUNTER;\<close> is a static data member of \<^verbatim>\<open>class System\<close> and
  \<^verbatim>\<open>static int uniqueIdCount;\<close> one of \<^verbatim>\<open>class Molecule\<close>: each is a single object of the
  process, not a field of an instance.  \<^verbatim>\<open>int globalEventCounter;\<close> is an ordinary member of
  \<^verbatim>\<open>System\<close>.  The counters are 32-bit \<^verbatim>\<open>int\<close>s, modelled as words (read with \<open>sint\<close>).
\<close>

record Statics =
  NULL_EVENT_COUNTER :: "32 word"
  uniqueIdCount :: "32 word"

record System =
  name :: string
  globalEventCounter :: "32 word"
  molecules :: "Molecule list"

record Process =
  statics :: Statics
  systems :: "System list"

text \<open>\<^verbatim>\<open>static int getUniqueIdCount() { return uniqueIdCount; };\<close>\<close>

definition getUniqueIdCount :: "Process \<Rightarrow> 32 word" where
  "getUniqueIdCount p = uniqueIdCount (statics p)"

text \<open>\<^verbatim>\<open>int getGlobalEventCounter() { return globalEventCounter; };\<close> on System number \<open>s\<close>.\<close>

definition getGlobalEventCounter :: "Process \<Rightarrow> nat \<Rightarrow> 32 word option" where
  "getGlobalEventCounter p s =
     (if s < length (systems p) then Some (globalEventCounter (systems p ! s)) else None)"

text \<open>
  Reading \<^verbatim>\<open>NULL_EVENT_COUNTER\<close> through System number \<open>s\<close>: the member is static, so the
  same object is read whichever instance is named.
\<close>

definition read_NULL_EVENT_COUNTER :: "Process \<Rightarrow> nat \<Rightarrow> 32 word" where
  "read_NULL_EVENT_COUNTER p s = NULL_EVENT_COUNTER (statics p)"

text \<open>
  Modelled from the spec: the body of \<^verbatim>\<open>ReactionClass::fire\<close>, which counts null events, is
  missing.  Section 7: a rejected firing ``is counted toward \<^verbatim>\<open>NULL_EVENT_COUNTER\<close>, no
  mutation occurs''.  The firing happens in System number \<open>s\<close>, which is left as it is.
\<close>

definition count_null_event :: "nat \<Rightarrow> Process \<Rightarrow> Process" where
  "count_null_event s p =
     p\<lparr>statics := (statics p)\<lparr>NULL_EVENT_COUNTER := NULL_EVENT_COUNTER (statics p) + 1\<rparr>\<rparr>"

text \<open>
  A statement run for System number \<open>s\<close> that replaces a static counter by \<open>f\<close> of its
  current value (\<^verbatim>\<open>++\<close>, \<^verbatim>\<open>+=\<close> or an assignment): there is one object, and it is the one
  updated, whichever System the running code belongs to.
\<close>

definition update_NULL_EVENT_COUNTER :: "(32 word \<Rightarrow> 32 word) \<Rightarrow> nat \<Rightarrow> Process \<Rightarrow> Process" where
  "update_NULL_EVENT_COUNTER f s p =
     p\<lparr>statics := (statics p)\<lparr>NULL_EVENT_COUNTER := f (NULL_EVENT_COUNTER (statics p))\<rparr>\<rparr>"

definition update_uniqueIdCount :: "(32 word \<Rightarrow> 32 word) \<Rightarrow> nat \<Rightarrow> Process \<Rightarrow> Process" where
  "update_uniqueIdCount f s p =
     p\<lparr>statics := (statics p)\<lparr>uniqueIdCount := f (uniqueIdCount (statics p))\<rparr>\<rparr>"

section \<open>Example data\<close>

definition free_molecule :: "int \<Rightarrow> Molecule" where
  "free_molecule uid =
     \<lparr>ID_complex = uid, ID_unique = uid, listId = uid, isAliveInSim = True,
      component = [0], bond = [None], indexOfBond = [- 1], isObservable = [],
      rxnListMappingId2 = [[], []]\<rparr>"

definition bound_molecule :: "int \<Rightarrow> Molecule_ptr \<Rightarrow> Molecule" where
  "bound_molecule uid partner = (free_molecule uid)\<lparr>bond := [Some partner], indexOfBond := [0]\<rparr>"

definition two_systems :: Process where
  "two_systems =
     \<lparr>statics = \<lparr>NULL_EVENT_COUNTER = 0, uniqueIdCount = 0\<rparr>,
      systems = [\<lparr>name = ''A'', globalEventCounter = 0, molecules = []\<rparr>,
                 \<lparr>name = ''B'', globalEventCounter = 0, molecules = []\<rparr>]\<rparr>"

section \<open>Properties of the ComplexList iterator\<close>

lemma nextComplex_allComplexes [simp]:
  "allComplexes (snd (nextComplex cl)) = allComplexes cl"
  by (simp add: nextComplex_def)

lemma fst_nextComplex_calls_Suc:
  "fst (nextComplex_calls (Suc k) cl) =
     fst (nextComplex cl) # fst (nextComplex_calls k (snd (nextComplex cl)))"
  by (simp split: prod.splits)

lemma snd_nextComplex_calls_Suc:
  "snd (nextComplex_calls (Suc k) cl) = snd (nextComplex_calls k (snd (nextComplex cl)))"
  by (simp split: prod.splits)

lemma nextComplex_calls_from:
  "fst (nextComplex_calls k cl) =
     take k (drop (complexIter_public cl) (allComplexes cl))
       @ replicate (k - (length (allComplexes cl) - complexIter_public cl)) 0"
proof (induction k arbitrary: cl)
  case 0
  show ?case by simp
next
  case (Suc k)
  show ?case
  proof (cases "complexIter_public cl < length (allComplexes cl)")
    case True
    let ?cl' = "cl\<lparr>complexIter_public := complexIter_public cl + 1\<rparr>"
    have step: "nextComplex cl = (allComplexes cl ! complexIter_public cl, ?cl')"
      using True by (simp add: nextComplex_def)
    have dr: "drop (complexIter_public cl) (allComplexes cl)
                = allComplexes cl ! complexIter_public cl
                  # drop (Suc (complexIter_public cl)) (allComplexes cl)"
      using True by (simp add: Cons_nth_drop_Suc)
    have ar: "Suc k - (length (allComplexes cl) - complexIter_public cl)
                = k - (length (allComplexes cl) - Suc (complexIter_public cl))"
      using True by arith
    show ?thesis
      using Suc.IH [of ?cl']
      by (simp only: fst_nextComplex_calls_Suc step fst_conv snd_conv dr ar) simp
  next
    case False
    have step: "nextComplex cl = (0, cl)"
      using False by (simp add: nextComplex_def)
    show ?thesis
      using Suc.IH [of cl] False
      by (simp only: fst_nextComplex_calls_Suc step fst_conv snd_conv) simp
  qed
qed

text \<open>
  C10.  After \<^verbatim>\<open>resetComplexIter()\<close>, any number \<open>k\<close> of \<^verbatim>\<open>nextComplex()\<close> calls returns the
  stored pointers in storage order, each once (the first \<open>k\<close> of them when \<open>k\<close> is smaller
  than the vector), followed by the null pointer \<open>0\<close> for every call after the end; the
  vector itself is never changed by the calls.
\<close>

theorem nextComplex_after_reset:
  "fst (nextComplex_calls k (resetComplexIter cl)) =
     take k (allComplexes cl) @ replicate (k - length (allComplexes cl)) 0
   \<and> allComplexes (snd (nextComplex_calls k (resetComplexIter cl))) = allComplexes cl"
proof
  show "fst (nextComplex_calls k (resetComplexIter cl)) =
          take k (allComplexes cl) @ replicate (k - length (allComplexes cl)) 0"
    using nextComplex_calls_from [of k "resetComplexIter cl"]
    by (simp add: resetComplexIter_def)
next
  have keep: "allComplexes (snd (nextComplex_calls n c)) = allComplexes c" for n c
  proof (induction n arbitrary: c)
    case 0
    show ?case by simp
  next
    case (Suc n)
    have "allComplexes (snd (nextComplex_calls n (snd (nextComplex c)))) = allComplexes c"
      using Suc.IH [of "snd (nextComplex c)"] by simp
    then show ?case by (simp only: snd_nextComplex_calls_Suc)
  qed
  show "allComplexes (snd (nextComplex_calls k (resetComplexIter cl))) = allComplexes cl"
    using keep [of k "resetComplexIter cl"] by (simp add: resetComplexIter_def)
qed

section \<open>Properties of the reaction membership sets\<close>

lemma set_std_set_insert: "set (fst (std_set_insert x xs)) = insert x (set xs)"
  by (induction xs) auto

lemma sorted_std_set_insert:
  "sorted_wrt (<) xs \<Longrightarrow> sorted_wrt (<) (fst (std_set_insert x xs))"
  by (induction xs) (auto simp: set_std_set_insert)

lemma snd_std_set_insert:
  "sorted_wrt (<) xs \<Longrightarrow> snd (std_set_insert x xs) = (x \<notin> set xs)"
  by (induction xs) auto

lemma std_set_insert_present:
  "sorted_wrt (<) xs \<Longrightarrow> x \<in> set xs \<Longrightarrow> fst (std_set_insert x xs) = xs"
  by (induction xs) auto

lemma set_std_set_erase:
  "sorted_wrt (<) xs \<Longrightarrow> set (std_set_erase x xs) = set xs - {x}"
  by (induction xs) auto

lemma sorted_std_set_erase:
  "sorted_wrt (<) xs \<Longrightarrow> sorted_wrt (<) (std_set_erase x xs)"
  by (induction xs) (auto simp: set_std_set_erase)

lemma hd_sorted_Min:
  fixes xs :: "int list"
  assumes "sorted_wrt (<) xs" "xs \<noteq> []"
  shows "hd xs = Min (set xs)"
proof -
  obtain y ys where xs: "xs = y # ys" using assms(2) by (cases xs) auto
  have "\<forall>z\<in>set ys. y < z" using assms(1) xs by simp
  then have "Min (set (y # ys)) = y"
    by (intro Min_eqI) auto
  then show ?thesis using xs by simp
qed


lemma rxnSetAt_Some:
  "0 \<le> r \<Longrightarrow> r < int (length (rxnListMappingId2 m)) \<Longrightarrow>
     rxnSetAt m r = Some (rxnListMappingId2 m ! nat r)"
  by (simp add: rxnSetAt_def)

lemma list_all_update:
  "list_all P xs \<Longrightarrow> P y \<Longrightarrow> list_all P (xs[k := y])"
  by (auto simp: list_all_iff dest: set_update_subset_insert [THEN subsetD])

lemma rxn_sets_ok_nth:
  "rxn_sets_ok m \<Longrightarrow> k < length (rxnListMappingId2 m) \<Longrightarrow>
     sorted_wrt (<) (rxnListMappingId2 m ! k) \<and> - 1 \<notin> set (rxnListMappingId2 m ! k)"
  by (simp add: rxn_sets_ok_def list_all_length)

lemma setRxnListMappingId_ok:
  assumes "rxn_sets_ok m" "setRxnListMappingId m r i = Some (b, m')"
  shows "rxn_sets_ok m' \<and> length (rxnListMappingId2 m') = length (rxnListMappingId2 m)"
proof -
  from assms(2) have rng: "0 \<le> r" "r < int (length (rxnListMappingId2 m))"
    by (auto simp: setRxnListMappingId_def rxnSetAt_def split: if_splits)
  then have k: "nat r < length (rxnListMappingId2 m)" by simp
  note old = rxn_sets_ok_nth [OF assms(1) k]
  show ?thesis
  proof (cases "i = - 1")
    case True
    then have "m' = m\<lparr>rxnListMappingId2 := (rxnListMappingId2 m)[nat r := []]\<rparr>"
      using assms(2) rng by (simp add: setRxnListMappingId_def rxnSetAt_def)
    then show ?thesis
      using assms(1) by (simp add: rxn_sets_ok_def list_all_update)
  next
    case False
    then have m': "m' = m\<lparr>rxnListMappingId2 :=
        (rxnListMappingId2 m)[nat r := fst (std_set_insert i (rxnListMappingId2 m ! nat r))]\<rparr>"
      using assms(2) rng by (simp add: setRxnListMappingId_def rxnSetAt_def)
    have "sorted_wrt (<) (fst (std_set_insert i (rxnListMappingId2 m ! nat r)))
          \<and> - 1 \<notin> set (fst (std_set_insert i (rxnListMappingId2 m ! nat r)))"
      using old False by (simp add: sorted_std_set_insert set_std_set_insert)
    then show ?thesis
      using assms(1) m' by (simp add: rxn_sets_ok_def list_all_update)
  qed
qed

lemma deleteRxnListMappingId_ok:
  assumes "rxn_sets_ok m" "deleteRxnListMappingId m r i = Some m'"
  shows "rxn_sets_ok m' \<and> length (rxnListMappingId2 m') = length (rxnListMappingId2 m)"
proof -
  from assms(2) have rng: "0 \<le> r" "r < int (length (rxnListMappingId2 m))"
    by (auto simp: deleteRxnListMappingId_def rxnSetAt_def split: if_splits)
  then have k: "nat r < length (rxnListMappingId2 m)" by simp
  note old = rxn_sets_ok_nth [OF assms(1) k]
  have m': "m' = m\<lparr>rxnListMappingId2 :=
        (rxnListMappingId2 m)[nat r := std_set_erase i (rxnListMappingId2 m ! nat r)]\<rparr>"
    using assms(2) rng by (simp add: deleteRxnListMappingId_def rxnSetAt_def)
  have "sorted_wrt (<) (std_set_erase i (rxnListMappingId2 m ! nat r))
        \<and> - 1 \<notin> set (std_set_erase i (rxnListMappingId2 m ! nat r))"
    using old by (simp add: sorted_std_set_erase set_std_set_erase)
  then show ?thesis
    using assms(1) m' by (simp add: rxn_sets_ok_def list_all_update)
qed

lemma rxn_calls_on_ok:
  "rxn_sets_ok m \<Longrightarrow> rxn_calls_on cs m = Some m' \<Longrightarrow>
     rxn_sets_ok m' \<and> length (rxnListMappingId2 m') = length (rxnListMappingId2 m)"
proof (induction cs arbitrary: m)
  case Nil
  then show ?case by simp
next
  case (Cons c cs)
  from Cons.prems(2) obtain m1 where c: "rxn_call_on c m = Some m1"
    and rest: "rxn_calls_on cs m1 = Some m'"
    by (auto split: option.splits)
  have "rxn_sets_ok m1 \<and> length (rxnListMappingId2 m1) = length (rxnListMappingId2 m)"
  proof (cases c)
    case (SetRxnListMappingId r i)
    with c obtain b where "setRxnListMappingId m r i = Some (b, m1)" by auto
    then show ?thesis using setRxnListMappingId_ok [OF Cons.prems(1)] by blast
  next
    case (DeleteRxnListMappingId r i)
    with c have "deleteRxnListMappingId m r i = Some m1" by simp
    then show ?thesis using deleteRxnListMappingId_ok [OF Cons.prems(1)] by blast
  qed
  then show ?case using Cons.IH [of m1] rest by simp
qed

text \<open>
  C6.  A molecule's participation in rule \<open>r\<close> is a set of mapping-set identifiers.  For a
  valid rule index \<open>r\<close>, \<^verbatim>\<open>setRxnListMappingId(r, id)\<close> with \<open>id \<ge> 0\<close> returns true exactly
  when \<open>id\<close> was not in the set, leaves the molecule with the set for \<open>r\<close> enlarged by \<open>id\<close>
  (unchanged when \<open>id\<close> was already there) and everything else as it was; with \<open>id = -1\<close>
  it empties the set for \<open>r\<close> and returns true.
\<close>

theorem setRxnListMappingId_set_semantics:
  assumes "0 \<le> r" and "r < int (length (rxnListMappingId2 m))"
      and "sorted_wrt (<) (rxnListMappingId2 m ! nat r)"
  shows "(0 \<le> i \<longrightarrow>
           (\<exists>s'. setRxnListMappingId m r i =
                    Some (i \<notin> set (rxnListMappingId2 m ! nat r),
                          m\<lparr>rxnListMappingId2 := (rxnListMappingId2 m)[nat r := s']\<rparr>)
                \<and> sorted_wrt (<) s'
                \<and> set s' = insert i (set (rxnListMappingId2 m ! nat r))
                \<and> (i \<in> set (rxnListMappingId2 m ! nat r) \<longrightarrow> s' = rxnListMappingId2 m ! nat r)))
       \<and> setRxnListMappingId m r (- 1) =
           Some (True, m\<lparr>rxnListMappingId2 := (rxnListMappingId2 m)[nat r := []]\<rparr>)"
proof (intro conjI impI)
  assume "0 \<le> i"
  then have ne: "i \<noteq> - 1" by simp
  let ?s = "rxnListMappingId2 m ! nat r"
  have "setRxnListMappingId m r i =
          Some (snd (std_set_insert i ?s),
                m\<lparr>rxnListMappingId2 := (rxnListMappingId2 m)[nat r := fst (std_set_insert i ?s)]\<rparr>)"
    using assms(1,2) ne by (simp add: setRxnListMappingId_def rxnSetAt_def)
  moreover have "snd (std_set_insert i ?s) = (i \<notin> set ?s)"
    using assms(3) by (rule snd_std_set_insert)
  moreover have "sorted_wrt (<) (fst (std_set_insert i ?s))"
    using assms(3) by (rule sorted_std_set_insert)
  moreover have "set (fst (std_set_insert i ?s)) = insert i (set ?s)"
    by (rule set_std_set_insert)
  moreover have "i \<in> set ?s \<longrightarrow> fst (std_set_insert i ?s) = ?s"
    using assms(3) by (simp add: std_set_insert_present)
  ultimately show "\<exists>s'. setRxnListMappingId m r i =
                    Some (i \<notin> set ?s, m\<lparr>rxnListMappingId2 := (rxnListMappingId2 m)[nat r := s']\<rparr>)
                \<and> sorted_wrt (<) s' \<and> set s' = insert i (set ?s)
                \<and> (i \<in> set ?s \<longrightarrow> s' = ?s)"
    by auto
next
  show "setRxnListMappingId m r (- 1) =
           Some (True, m\<lparr>rxnListMappingId2 := (rxnListMappingId2 m)[nat r := []]\<rparr>)"
    using assms(1,2) by (simp add: setRxnListMappingId_def rxnSetAt_def)
qed

theorem setRxnListMappingId_set_semantics_witness:
  "(0::int) \<le> 0 \<and> (0::int) \<le> 4 \<and> (0::int) \<le> 5
   \<and> (0::int) < int (length (rxnListMappingId2 ((free_molecule 10)\<lparr>rxnListMappingId2 := [[3, 5], []]\<rparr>)))
   \<and> sorted_wrt (<) (rxnListMappingId2 ((free_molecule 10)\<lparr>rxnListMappingId2 := [[3, 5], []]\<rparr>) ! nat 0)
   \<and> setRxnListMappingId ((free_molecule 10)\<lparr>rxnListMappingId2 := [[3, 5], []]\<rparr>) 0 4 =
       Some (True, (free_molecule 10)\<lparr>rxnListMappingId2 := [[3, 4, 5], []]\<rparr>)
   \<and> setRxnListMappingId ((free_molecule 10)\<lparr>rxnListMappingId2 := [[3, 5], []]\<rparr>) 0 5 =
       Some (False, (free_molecule 10)\<lparr>rxnListMappingId2 := [[3, 5], []]\<rparr>)
   \<and> setRxnListMappingId ((free_molecule 10)\<lparr>rxnListMappingId2 := [[3, 5], []]\<rparr>) 0 (- 1) =
       Some (True, (free_molecule 10)\<lparr>rxnListMappingId2 := [[], []]\<rparr>)"
  using setRxnListMappingId_set_semantics
          [of 0 "(free_molecule 10)\<lparr>rxnListMappingId2 := [[3, 5], []]\<rparr>" 4]
        setRxnListMappingId_set_semantics
          [of 0 "(free_molecule 10)\<lparr>rxnListMappingId2 := [[3, 5], []]\<rparr>" 5]
  by (simp add: free_molecule_def setRxnListMappingId_def rxnSetAt_def)

text \<open>
  C9.  On a molecule that started with empty sets and was then written only through
  \<^verbatim>\<open>setRxnListMappingId\<close> and \<^verbatim>\<open>deleteRxnListMappingId\<close>, \<^verbatim>\<open>getRxnListMappingId(r)\<close> for a
  valid rule index \<open>r\<close> returns \<^verbatim>\<open>NOT_IN_RXN\<close> (\<open>-1\<close>) exactly when the set for \<open>r\<close> is empty,
  and otherwise the first element of the ordered set, which is its smallest.
\<close>

theorem getRxnListMappingId_NOT_IN_RXN_iff_empty:
  assumes "rxnListMappingId2 m0 = replicate n []"
      and "rxn_calls_on cs m0 = Some m"
      and "0 \<le> r" and "r < int n"
  shows "\<exists>s v. getRxnListMappingSet m r = Some s \<and> getRxnListMappingId m r = Some v
           \<and> (v = NOT_IN_RXN \<longleftrightarrow> s = [])
           \<and> (s \<noteq> [] \<longrightarrow> v = hd s \<and> v = Min (set s))"
proof -
  have "rxn_sets_ok m0"
    using assms(1) by (simp add: rxn_sets_ok_def list_all_iff)
  then have ok: "rxn_sets_ok m" and len: "length (rxnListMappingId2 m) = n"
    using rxn_calls_on_ok [OF _ assms(2)] assms(1) by simp_all
  let ?s = "rxnListMappingId2 m ! nat r"
  have k: "nat r < length (rxnListMappingId2 m)" using assms(3,4) len by simp
  have at: "rxnSetAt m r = Some ?s"
    using assms(3,4) len by (simp add: rxnSetAt_def)
  have srt: "sorted_wrt (<) ?s" and no: "- 1 \<notin> set ?s"
    using rxn_sets_ok_nth [OF ok k] by simp_all
  have "?s \<noteq> [] \<Longrightarrow> hd ?s \<noteq> - 1"
    using no by (cases ?s) auto
  moreover have "?s \<noteq> [] \<Longrightarrow> hd ?s = Min (set ?s)"
    using srt by (rule hd_sorted_Min)
  ultimately show ?thesis
    by (auto simp: getRxnListMappingSet_def getRxnListMappingId_def at NOT_IN_RXN_def)
qed

theorem getRxnListMappingId_NOT_IN_RXN_iff_empty_witness:
  "rxnListMappingId2 (free_molecule 10) = replicate 2 []
   \<and> rxn_calls_on [SetRxnListMappingId 0 5, SetRxnListMappingId 0 3, SetRxnListMappingId 0 5,
                    DeleteRxnListMappingId 0 9, SetRxnListMappingId 1 7, SetRxnListMappingId 1 (- 1)]
        (free_molecule 10) = Some ((free_molecule 10)\<lparr>rxnListMappingId2 := [[3, 5], []]\<rparr>)
   \<and> (0::int) \<le> 0 \<and> (0::int) < int 2
   \<and> getRxnListMappingSet ((free_molecule 10)\<lparr>rxnListMappingId2 := [[3, 5], []]\<rparr>) 0 = Some [3, 5]
   \<and> getRxnListMappingId ((free_molecule 10)\<lparr>rxnListMappingId2 := [[3, 5], []]\<rparr>) 0 = Some 3
   \<and> getRxnListMappingSet ((free_molecule 10)\<lparr>rxnListMappingId2 := [[3, 5], []]\<rparr>) 1 = Some []
   \<and> getRxnListMappingId ((free_molecule 10)\<lparr>rxnListMappingId2 := [[3, 5], []]\<rparr>) 1 = Some NOT_IN_RXN"
proof -
  have init: "rxnListMappingId2 (free_molecule 10) = replicate 2 []"
    by (simp add: free_molecule_def numeral_2_eq_2)
  have run: "rxn_calls_on [SetRxnListMappingId 0 5, SetRxnListMappingId 0 3, SetRxnListMappingId 0 5,
                    DeleteRxnListMappingId 0 9, SetRxnListMappingId 1 7, SetRxnListMappingId 1 (- 1)]
        (free_molecule 10) = Some ((free_molecule 10)\<lparr>rxnListMappingId2 := [[3, 5], []]\<rparr>)"
    by (simp add: free_molecule_def setRxnListMappingId_def deleteRxnListMappingId_def
        rxnSetAt_def)
  show ?thesis
    using getRxnListMappingId_NOT_IN_RXN_iff_empty [OF init run, of 0]
      getRxnListMappingId_NOT_IN_RXN_iff_empty [OF init run, of 1] init run
    by (simp add: free_molecule_def getRxnListMappingSet_def getRxnListMappingId_def
        rxnSetAt_def NOT_IN_RXN_def)
qed

section \<open>Bond symmetry\<close>

lemma bond_symmetric_iff:
  "bond_symmetric st \<longleftrightarrow>
     (\<forall>m i. m < length st \<and> isAliveInSim (st ! m) \<and> i < length (bond (st ! m))
        \<longrightarrow> half_edge_symmetric st m i)"
  by (auto simp: bond_symmetric_def list_all_iff)

lemma length_set_half_edge [simp]: "length (set_half_edge st m i p j) = length st"
  by (simp add: set_half_edge_def)

lemma alive_set_half_edge [simp]:
  "isAliveInSim (set_half_edge st m i p j ! k) = isAliveInSim (st ! k)"
  by (cases "k = m"; cases "m < length st") (simp_all add: set_half_edge_def not_less list_update_beyond)

lemma length_bond_set_half_edge [simp]:
  "length (bond (set_half_edge st m i p j ! k)) = length (bond (st ! k))"
  by (cases "k = m"; cases "m < length st") (simp_all add: set_half_edge_def not_less list_update_beyond)

lemma length_indexOfBond_set_half_edge [simp]:
  "length (indexOfBond (set_half_edge st m i p j ! k)) = length (indexOfBond (st ! k))"
  by (cases "k = m"; cases "m < length st") (simp_all add: set_half_edge_def not_less list_update_beyond)

lemma site_exists_set_half_edge [simp]:
  "site_exists (set_half_edge st m i p j) k l = site_exists st k l"
  by (simp add: site_exists_def)

lemma half_edge_set_same:
  "site_exists st m i \<Longrightarrow> half_edge (set_half_edge st m i p j) m i = (p, j)"
  by (simp add: half_edge_def set_half_edge_def site_exists_def)

lemma half_edge_set_other:
  "(k, l) \<noteq> (m, i) \<Longrightarrow> half_edge (set_half_edge st m i p j) k l = half_edge st k l"
  by (cases "k = m"; cases "m < length st") (auto simp: half_edge_def set_half_edge_def not_less list_update_beyond)

lemma half_edge_symmetric_alt:
  "half_edge_symmetric st m i \<longleftrightarrow>
     (\<forall>n. fst (half_edge st m i) = Some n \<longrightarrow>
        0 \<le> snd (half_edge st m i) \<and> site_exists st n (nat (snd (half_edge st m i)))
        \<and> half_edge st n (nat (snd (half_edge st m i))) = (Some m, int i))"
  by (auto simp: half_edge_symmetric_def half_edge_def Let_def split: option.splits)


lemma half_edge_after_two:
  assumes "site_exists st a i" "site_exists st b j"
  shows "half_edge (set_half_edge (set_half_edge st a i p x) b j q y) k l =
           (if (k, l) = (b, j) then (q, y)
            else if (k, l) = (a, i) then (p, x)
            else half_edge st k l)"
proof (cases "(k, l) = (b, j)")
  case True
  have "site_exists (set_half_edge st a i p x) b j" using assms(2) by simp
  then show ?thesis using True by (simp add: half_edge_set_same)
next
  case False
  show ?thesis
  proof (cases "(k, l) = (a, i)")
    case True
    then have kl: "k = a" "l = i" by simp_all
    have ne: "(a, i) \<noteq> (b, j)" using False kl by simp
    have "half_edge (set_half_edge (set_half_edge st a i p x) b j q y) a i =
            half_edge (set_half_edge st a i p x) a i"
      using ne by (rule half_edge_set_other)
    also have "\<dots> = (p, x)"
      using assms(1) by (rule half_edge_set_same)
    finally show ?thesis using ne kl by auto
  next
    case na: False
    have "half_edge (set_half_edge (set_half_edge st a i p x) b j q y) k l =
            half_edge (set_half_edge st a i p x) k l"
      using False by (rule half_edge_set_other)
    also have "\<dots> = half_edge st k l"
      using na by (rule half_edge_set_other)
    finally show ?thesis using False na by auto
  qed
qed

lemma bond_symmetric_half_edge:
  "bond_symmetric st \<longleftrightarrow>
     (\<forall>m i n. m < length st \<and> isAliveInSim (st ! m) \<and> i < length (bond (st ! m))
          \<and> fst (half_edge st m i) = Some n
        \<longrightarrow> 0 \<le> snd (half_edge st m i)
            \<and> site_exists st n (nat (snd (half_edge st m i)))
            \<and> half_edge st n (nat (snd (half_edge st m i))) = (Some m, int i))"
  unfolding bond_symmetric_iff half_edge_symmetric_alt by blast

lemma bind_Inr:
  "bind st m1 c1 m2 c2 = Inr st' \<Longrightarrow>
     site_exists st m1 c1 \<and> site_exists st m2 c2
     \<and> fst (half_edge st m1 c1) = None \<and> fst (half_edge st m2 c2) = None
     \<and> st' = set_half_edge (set_half_edge st m1 c1 (Some m2) (int c2)) m2 c2 (Some m1) (int c1)"
  by (auto simp: bind_def half_edge_def split: if_splits)

lemma unbind_Inr:
  "unbind st a i = Inr (st', r) \<Longrightarrow>
     site_exists st a i \<and>
     (\<exists>n. fst (half_edge st a i) = Some n \<and> 0 \<le> snd (half_edge st a i)
          \<and> site_exists st n (nat (snd (half_edge st a i)))
          \<and> st' = set_half_edge (set_half_edge st a i None NOINDEX)
                     n (nat (snd (half_edge st a i))) None NOINDEX
          \<and> r = (ID_unique (st ! n), snd (half_edge st a i)))"
  by (auto simp: unbind_def half_edge_def Let_def split: if_splits option.splits)

lemma setRxnListMappingId_keeps_bonds:
  "setRxnListMappingId m r i = Some (b, m') \<Longrightarrow>
     bond m' = bond m \<and> indexOfBond m' = indexOfBond m \<and> isAliveInSim m' = isAliveInSim m"
  by (auto simp: setRxnListMappingId_def split: option.splits if_splits)

lemma deleteRxnListMappingId_keeps_bonds:
  "deleteRxnListMappingId m r i = Some m' \<Longrightarrow>
     bond m' = bond m \<and> indexOfBond m' = indexOfBond m \<and> isAliveInSim m' = isAliveInSim m"
  by (auto simp: deleteRxnListMappingId_def split: option.splits)

lemma setAlive_keeps_bonds:
  "bond (setAlive b m) = bond m \<and> indexOfBond (setAlive b m) = indexOfBond m
   \<and> isAliveInSim (setAlive b m) = b"
  by (simp add: setAlive_def)

lemma bind_succeeds_iff:
  "(\<exists>st'. bind st m1 c1 m2 c2 = Inr st') \<longleftrightarrow>
     site_exists st m1 c1 \<and> site_exists st m2 c2
     \<and> bond (st ! m1) ! c1 = None \<and> bond (st ! m2) ! c2 = None"
  by (auto simp: bind_def)

lemma bind_SiteOccupied_iff:
  "bind st m1 c1 m2 c2 = Inl SiteOccupied \<longleftrightarrow>
     site_exists st m1 c1 \<and> site_exists st m2 c2
     \<and> (bond (st ! m1) ! c1 \<noteq> None \<or> bond (st ! m2) ! c2 \<noteq> None)"
  by (auto simp: bind_def)

lemma bond_symmetric_all_half_edge:
  "bond_symmetric_all st \<longleftrightarrow>
     (\<forall>m i n. m < length st \<and> i < length (bond (st ! m))
          \<and> fst (half_edge st m i) = Some n
        \<longrightarrow> 0 \<le> snd (half_edge st m i)
            \<and> site_exists st n (nat (snd (half_edge st m i)))
            \<and> half_edge st n (nat (snd (half_edge st m i))) = (Some m, int i))"
proof -
  have "bond_symmetric_all st \<longleftrightarrow>
     (\<forall>m i. m < length st \<and> i < length (bond (st ! m)) \<longrightarrow> half_edge_symmetric st m i)"
    by (auto simp: bond_symmetric_all_def list_all_iff)
  then show ?thesis unfolding half_edge_symmetric_alt by blast
qed

lemma bond_symmetric_all_live: "bond_symmetric_all st \<Longrightarrow> bond_symmetric st"
  unfolding bond_symmetric_all_half_edge bond_symmetric_half_edge by blast

lemma bond_symmetric_all_Nil: "bond_symmetric_all []"
  by (simp add: bond_symmetric_all_def)

lemma bind_keeps_all:
  assumes inv: "bond_symmetric_all st" and b: "bind st m1 c1 m2 c2 = Inr st'"
  shows "bond_symmetric_all st'"
proof -
  note B = bind_Inr [OF b]
  from B have ex: "site_exists st m1 c1" "site_exists st m2 c2"
    and o1: "fst (half_edge st m1 c1) = None" and o2: "fst (half_edge st m2 c2) = None"
    and st': "st' = set_half_edge (set_half_edge st m1 c1 (Some m2) (int c2)) m2 c2 (Some m1) (int c1)"
    by simp_all
  have he: "half_edge st' k l =
           (if (k, l) = (m2, c2) then (Some m1, int c1)
            else if (k, l) = (m1, c1) then (Some m2, int c2)
            else half_edge st k l)" for k l
    unfolding st' by (rule half_edge_after_two [OF ex])
  have se: "site_exists st' k l = site_exists st k l" for k l
    unfolding st' by simp
  show ?thesis
    unfolding bond_symmetric_all_half_edge
  proof (intro allI impI, elim conjE)
    fix m i n
    assume m: "m < length st'"
      and i: "i < length (bond (st' ! m))" and n: "fst (half_edge st' m i) = Some n"
    have m0: "m < length st" "i < length (bond (st ! m))"
      using m i unfolding st' by simp_all
    show "0 \<le> snd (half_edge st' m i)
            \<and> site_exists st' n (nat (snd (half_edge st' m i)))
            \<and> half_edge st' n (nat (snd (half_edge st' m i))) = (Some m, int i)"
    proof (cases "(m, i) = (m2, c2) \<or> (m, i) = (m1, c1)")
      case True
      then show ?thesis using n ex by (auto simp: he se)
    next
      case False
      then have same: "half_edge st' m i = half_edge st m i" by (auto simp: he)
      with n have n0: "fst (half_edge st m i) = Some n" by simp
      from inv [unfolded bond_symmetric_all_half_edge] m0 n0
      have old: "0 \<le> snd (half_edge st m i)"
        "site_exists st n (nat (snd (half_edge st m i)))"
        "half_edge st n (nat (snd (half_edge st m i))) = (Some m, int i)"
        by blast+
      from old(3) o1 have "(n, nat (snd (half_edge st m i))) \<noteq> (m1, c1)" by auto
      moreover from old(3) o2 have "(n, nat (snd (half_edge st m i))) \<noteq> (m2, c2)" by auto
      ultimately have "half_edge st' n (nat (snd (half_edge st m i))) = (Some m, int i)"
        using old(3) by (auto simp: he)
      then show ?thesis using old same by (simp add: se)
    qed
  qed
qed

lemma unbind_keeps_all:
  assumes inv: "bond_symmetric_all st" and u: "unbind st a i = Inr (st', r)"
  shows "bond_symmetric_all st'"
proof -
  from unbind_Inr [OF u] obtain n where ex: "site_exists st a i"
    and n: "fst (half_edge st a i) = Some n" and j0: "0 \<le> snd (half_edge st a i)"
    and exn: "site_exists st n (nat (snd (half_edge st a i)))"
    and st': "st' = set_half_edge (set_half_edge st a i None NOINDEX)
                     n (nat (snd (half_edge st a i))) None NOINDEX"
    by blast
  let ?j = "nat (snd (half_edge st a i))"
  have a: "a < length st" "i < length (bond (st ! a))"
    using ex by (simp_all add: site_exists_def)
  from inv [unfolded bond_symmetric_all_half_edge] a n
  have bk: "half_edge st n ?j = (Some a, int i)" by blast
  have fwd: "half_edge st a i = (Some n, int ?j)"
    using n j0 by (cases "half_edge st a i") simp
  have he: "half_edge st' k l =
           (if (k, l) = (n, ?j) then (None, NOINDEX)
            else if (k, l) = (a, i) then (None, NOINDEX)
            else half_edge st k l)" for k l
    unfolding st' by (rule half_edge_after_two [OF ex exn])
  have se: "site_exists st' k l = site_exists st k l" for k l
    unfolding st' by simp
  show ?thesis
    unfolding bond_symmetric_all_half_edge
  proof (intro allI impI, elim conjE)
    fix m l p
    assume m: "m < length st'"
      and l: "l < length (bond (st' ! m))" and p: "fst (half_edge st' m l) = Some p"
    have m0: "m < length st" "l < length (bond (st ! m))"
      using m l unfolding st' by simp_all
    from p have ne: "(m, l) \<noteq> (n, ?j)" "(m, l) \<noteq> (a, i)"
      by (auto simp: he split: if_splits)
    then have same: "half_edge st' m l = half_edge st m l" by (auto simp: he)
    with p have p0: "fst (half_edge st m l) = Some p" by simp
    from inv [unfolded bond_symmetric_all_half_edge] m0 p0
    have old: "0 \<le> snd (half_edge st m l)"
      "site_exists st p (nat (snd (half_edge st m l)))"
      "half_edge st p (nat (snd (half_edge st m l))) = (Some m, int l)"
      by blast+
    have "(p, nat (snd (half_edge st m l))) \<noteq> (a, i)"
      using old(3) fwd ne(1) by auto
    moreover have "(p, nat (snd (half_edge st m l))) \<noteq> (n, ?j)"
      using old(3) bk ne(2) by auto
    ultimately have "half_edge st' p (nat (snd (half_edge st m l))) = (Some m, int l)"
      using old(3) by (auto simp: he)
    then show "0 \<le> snd (half_edge st' m l)
            \<and> site_exists st' p (nat (snd (half_edge st' m l)))
            \<and> half_edge st' p (nat (snd (half_edge st' m l))) = (Some m, int l)"
      using old same by (simp add: se)
  qed
qed

lemma write_keeps_all:
  assumes inv: "bond_symmetric_all st" and k: "k < length st"
      and b: "bond m' = bond (st ! k)" and x: "indexOfBond m' = indexOfBond (st ! k)"
  shows "bond_symmetric_all (st[k := m'])"
proof -
  let ?st = "st[k := m']"
  have he: "half_edge ?st a i = half_edge st a i" if "a < length st" for a i
    using that b x by (cases "a = k") (simp_all add: half_edge_def)
  have se: "site_exists ?st a i = site_exists st a i" for a i
    using b x by (cases "a = k") (auto simp: site_exists_def)
  show ?thesis
    unfolding bond_symmetric_all_half_edge
  proof (intro allI impI, elim conjE)
    fix m i n
    assume m: "m < length ?st"
      and i: "i < length (bond (?st ! m))" and n: "fst (half_edge ?st m i) = Some n"
    have m0: "m < length st" using m by simp
    have i0: "i < length (bond (st ! m))"
      using i m0 b by (cases "m = k") simp_all
    have n0: "fst (half_edge st m i) = Some n" using n he [OF m0] by simp
    from inv [unfolded bond_symmetric_all_half_edge] m0 i0 n0
    have old: "0 \<le> snd (half_edge st m i)"
      "site_exists st n (nat (snd (half_edge st m i)))"
      "half_edge st n (nat (snd (half_edge st m i))) = (Some m, int i)"
      by blast+
    have nl: "n < length st" using old(2) by (simp add: site_exists_def)
    show "0 \<le> snd (half_edge ?st m i)
            \<and> site_exists ?st n (nat (snd (half_edge ?st m i)))
            \<and> half_edge ?st n (nat (snd (half_edge ?st m i))) = (Some m, int i)"
      using old by (simp add: he [OF m0] he [OF nl] se)
  qed
qed

lemma addMolecule_keeps_all:
  assumes inv: "bond_symmetric_all st"
  shows "bond_symmetric_all (addMolecule st m)"
proof -
  let ?st = "addMolecule st m"
  have len: "length ?st = Suc (length st)" by (simp add: addMolecule_def)
  have he: "half_edge ?st a i = half_edge st a i" if "a < length st" for a i
    using that by (simp add: half_edge_def addMolecule_def nth_append)
  have se: "site_exists st a i \<Longrightarrow> site_exists ?st a i" for a i
    by (auto simp: site_exists_def addMolecule_def nth_append)
  have new: "fst (half_edge ?st (length st) i) = None" if "i < length (bond (?st ! length st))" for i
    using that by (simp add: half_edge_def addMolecule_def born_free_def)
  show ?thesis
    unfolding bond_symmetric_all_half_edge
  proof (intro allI impI, elim conjE)
    fix a i n
    assume a: "a < length ?st"
      and i: "i < length (bond (?st ! a))" and n: "fst (half_edge ?st a i) = Some n"
    have a0: "a < length st"
    proof (rule ccontr)
      assume "\<not> a < length st"
      then have "a = length st" using a len by simp
      then show False using new i n by simp
    qed
    have i0: "i < length (bond (st ! a))"
      using i a0 by (simp add: addMolecule_def nth_append)
    have n0: "fst (half_edge st a i) = Some n" using n he [OF a0] by simp
    from inv [unfolded bond_symmetric_all_half_edge] a0 i0 n0
    have old: "0 \<le> snd (half_edge st a i)"
      "site_exists st n (nat (snd (half_edge st a i)))"
      "half_edge st n (nat (snd (half_edge st a i))) = (Some a, int i)"
      by blast+
    have nl: "n < length st" using old(2) by (simp add: site_exists_def)
    show "0 \<le> snd (half_edge ?st a i)
            \<and> site_exists ?st n (nat (snd (half_edge ?st a i)))
            \<and> half_edge ?st n (nat (snd (half_edge ?st a i))) = (Some a, int i)"
      using old se [OF old(2)] by (simp add: he [OF a0] he [OF nl])
  qed
qed

lemma on_molecule_keeps_all:
  assumes inv: "bond_symmetric_all st" and r: "on_molecule st k f = Inr st'"
      and f: "\<And>m m'. f m = Some m' \<Longrightarrow> bond m' = bond m \<and> indexOfBond m' = indexOfBond m"
  shows "bond_symmetric_all st'"
proof -
  from r obtain m' where k: "k < length st" and fm: "f (st ! k) = Some m'"
    and st': "st' = st[k := m']"
    by (auto simp: on_molecule_def split: if_splits option.splits)
  from f [OF fm] show ?thesis
    unfolding st' using write_keeps_all [OF inv k] by blast
qed

lemma store_op_on_keeps_all:
  assumes inv: "bond_symmetric_all st" and r: "store_op_on c st = Inr st'"
  shows "bond_symmetric_all st'"
proof (cases c)
  case (Op_addMolecule m)
  with r inv show ?thesis using addMolecule_keeps_all by auto
next
  case (Op_bind m1 c1 m2 c2)
  with r inv show ?thesis using bind_keeps_all by auto
next
  case (Op_unbind a i)
  with r obtain ret where "unbind st a i = Inr (st', ret)"
    by (cases "unbind st a i") auto
  then show ?thesis using unbind_keeps_all [OF inv] by blast
next
  case (Op_setAlive k b)
  with r show ?thesis
    using on_molecule_keeps_all [OF inv, of k "\<lambda>m. Some (setAlive b m)" st']
    by (auto simp: setAlive_def)
next
  case (Op_setComplexID k v)
  with r show ?thesis
    using on_molecule_keeps_all [OF inv, of k "\<lambda>m. Some (setComplexID v m)" st']
    by (auto simp: setComplexID_def)
next
  case (Op_moveToNewComplex k v)
  with r show ?thesis
    using on_molecule_keeps_all [OF inv, of k "\<lambda>m. Some (moveToNewComplex v m)" st']
    by (auto simp: moveToNewComplex_def)
next
  case (Op_setIsObs k oi v)
  have "bond m' = bond m \<and> indexOfBond m' = indexOfBond m" if "setIsObs oi v m = Some m'" for m m'
    using that by (auto simp: setIsObs_def split: if_splits)
  with r Op_setIsObs show ?thesis
    using on_molecule_keeps_all [OF inv, of k "setIsObs oi v" st'] by auto
next
  case (Op_setRxnListMappingId k rx i)
  with r show ?thesis
    using on_molecule_keeps_all [OF inv, of k "\<lambda>m. map_option snd (setRxnListMappingId m rx i)" st']
    by (auto dest: setRxnListMappingId_keeps_bonds)
next
  case (Op_deleteRxnListMappingId k rx i)
  with r show ?thesis
    using on_molecule_keeps_all [OF inv, of k "\<lambda>m. deleteRxnListMappingId m rx i" st']
    by (auto dest: deleteRxnListMappingId_keeps_bonds)
qed

lemma store_ops_on_keep_all:
  "bond_symmetric_all st \<Longrightarrow> store_ops_on cs st = Inr st' \<Longrightarrow> bond_symmetric_all st'"
proof (induction cs arbitrary: st)
  case Nil
  then show ?case by simp
next
  case (Cons c cs)
  from Cons.prems(2) obtain st1 where c: "store_op_on c st = Inr st1"
    and rest: "store_ops_on cs st1 = Inr st'"
    by (auto split: sum.splits)
  from store_op_on_keeps_all [OF Cons.prems(1) c] rest show ?case
    by (rule Cons.IH)
qed


lemma bind_sets_both_half_edges:
  assumes b: "bind st m1 c1 m2 c2 = Inr st'"
  shows "bond (st' ! m1) ! c1 = Some m2 \<and> indexOfBond (st' ! m1) ! c1 = int c2
         \<and> bond (st' ! m2) ! c2 = Some m1 \<and> indexOfBond (st' ! m2) ! c2 = int c1"
proof -
  from bind_Inr [OF b] have ex: "site_exists st m1 c1" "site_exists st m2 c2"
    and st': "st' = set_half_edge (set_half_edge st m1 c1 (Some m2) (int c2))
                      m2 c2 (Some m1) (int c1)"
    by simp_all
  have he: "half_edge st' k l =
         (if (k, l) = (m2, c2) then (Some m1, int c1)
          else if (k, l) = (m1, c1) then (Some m2, int c2)
          else half_edge st k l)" for k l
    unfolding st' by (rule half_edge_after_two [OF ex])
  have "half_edge st' m1 c1 = (Some m2, int c2)" "half_edge st' m2 c2 = (Some m1, int c1)"
    by (auto simp: he)
  then show ?thesis by (simp add: half_edge_def)
qed

lemma unbind_clears_both_half_edges:
  assumes u: "unbind st a i = Inr (st', r)" and n: "bond (st ! a) ! i = Some n"
  shows "bond (st' ! a) ! i = None \<and> indexOfBond (st' ! a) ! i = NOINDEX
         \<and> bond (st' ! n) ! nat (indexOfBond (st ! a) ! i) = None
         \<and> indexOfBond (st' ! n) ! nat (indexOfBond (st ! a) ! i) = NOINDEX"
proof -
  from unbind_Inr [OF u] n have ex: "site_exists st a i"
    and exn: "site_exists st n (nat (snd (half_edge st a i)))"
    and st': "st' = set_half_edge (set_half_edge st a i None NOINDEX)
                     n (nat (snd (half_edge st a i))) None NOINDEX"
    by (auto simp: half_edge_def)
  have he: "half_edge st' k l =
         (if (k, l) = (n, nat (snd (half_edge st a i))) then (None, NOINDEX)
          else if (k, l) = (a, i) then (None, NOINDEX)
          else half_edge st k l)" for k l
    unfolding st' by (rule half_edge_after_two [OF ex exn])
  have "half_edge st' a i = (None, NOINDEX)"
       "half_edge st' n (nat (snd (half_edge st a i))) = (None, NOINDEX)"
    by (auto simp: he)
  then show ?thesis by (simp add: half_edge_def)
qed

text \<open>
  C2.  Bond symmetry is an invariant of the molecule store.  Let the store \<open>st\<close> be
  reached by any sequence of operations (creation of molecules, \<^verbatim>\<open>bind\<close>, \<^verbatim>\<open>unbind\<close>,
  the inline setters, \<^verbatim>\<open>setAlive\<close> among them) from the empty store, or from any store
  in which the bonds of every molecule are symmetric.  Then in \<open>st\<close>, for every live
  molecule \<open>m\<close> and component \<open>i\<close>, a bond at \<open>i\<close> to molecule \<open>n\<close> at component \<open>j\<close> is
  matched by the bond of \<open>n\<close> at \<open>j\<close> back to \<open>m\<close> at \<open>i\<close>; every further operation that
  succeeds gives a store where this holds again; a successful \<^verbatim>\<open>bind(m1,c1,m2,c2)\<close> sets
  both half-edges (\<open>m1\<close> at \<open>c1\<close> points to \<open>m2\<close> at \<open>c2\<close> and back); a successful
  \<^verbatim>\<open>unbind(a,i)\<close> removes both (the site \<open>i\<close> of \<open>a\<close> and the partner's site are open); and
  any other write to a molecule that leaves its two bond arrays alone keeps the symmetry.
\<close>

theorem bond_symmetry_invariant:
  assumes "bond_symmetric_all st0" and "store_ops_on ops st0 = Inr st"
  shows "bond_symmetric st \<and> bond_symmetric_all st
       \<and> (\<forall>c st'. store_op_on c st = Inr st' \<longrightarrow> bond_symmetric st' \<and> bond_symmetric_all st')
       \<and> (\<forall>st'. bind st m1 c1 m2 c2 = Inr st' \<longrightarrow>
            bond_symmetric st'
            \<and> bond (st' ! m1) ! c1 = Some m2 \<and> indexOfBond (st' ! m1) ! c1 = int c2
            \<and> bond (st' ! m2) ! c2 = Some m1 \<and> indexOfBond (st' ! m2) ! c2 = int c1)
       \<and> (\<forall>st' r n. unbind st a i = Inr (st', r) \<and> bond (st ! a) ! i = Some n \<longrightarrow>
            bond_symmetric st'
            \<and> bond (st' ! a) ! i = None
            \<and> bond (st' ! n) ! nat (indexOfBond (st ! a) ! i) = None)
       \<and> (\<forall>m'. k < length st \<and> bond m' = bond (st ! k)
                \<and> indexOfBond m' = indexOfBond (st ! k) \<longrightarrow>
            bond_symmetric (st[k := m']) \<and> bond_symmetric_all (st[k := m']))"
proof -
  have inv: "bond_symmetric_all st"
    using assms by (rule store_ops_on_keep_all)
  have 1: "bond_symmetric st \<and> bond_symmetric_all st"
    using inv by (simp add: bond_symmetric_all_live)
  have 2: "\<forall>c st'. store_op_on c st = Inr st' \<longrightarrow> bond_symmetric st' \<and> bond_symmetric_all st'"
    using store_op_on_keeps_all [OF inv] bond_symmetric_all_live by blast
  have 3: "\<forall>st'. bind st m1 c1 m2 c2 = Inr st' \<longrightarrow>
            bond_symmetric st'
            \<and> bond (st' ! m1) ! c1 = Some m2 \<and> indexOfBond (st' ! m1) ! c1 = int c2
            \<and> bond (st' ! m2) ! c2 = Some m1 \<and> indexOfBond (st' ! m2) ! c2 = int c1"
    using bind_keeps_all [OF inv] bond_symmetric_all_live bind_sets_both_half_edges by blast
  have 4: "\<forall>st' r n. unbind st a i = Inr (st', r) \<and> bond (st ! a) ! i = Some n \<longrightarrow>
            bond_symmetric st'
            \<and> bond (st' ! a) ! i = None
            \<and> bond (st' ! n) ! nat (indexOfBond (st ! a) ! i) = None"
    using unbind_keeps_all [OF inv] bond_symmetric_all_live unbind_clears_both_half_edges
    by blast
  have 5: "\<forall>m'. k < length st \<and> bond m' = bond (st ! k)
                \<and> indexOfBond m' = indexOfBond (st ! k) \<longrightarrow>
            bond_symmetric (st[k := m']) \<and> bond_symmetric_all (st[k := m'])"
    using write_keeps_all [OF inv] bond_symmetric_all_live by blast
  from 1 2 3 4 5 show ?thesis by blast
qed

theorem bond_symmetry_invariant_witness:
  "bond_symmetric_all []
   \<and> store_ops_on [Op_addMolecule (free_molecule 10), Op_addMolecule (free_molecule 11)] [] =
       Inr [free_molecule 10, free_molecule 11]
   \<and> bind [free_molecule 10, free_molecule 11] 0 0 1 0 =
       Inr [bound_molecule 10 1, bound_molecule 11 0]
   \<and> store_ops_on [Op_addMolecule (free_molecule 10), Op_addMolecule (free_molecule 11),
                    Op_bind 0 0 1 0, Op_setAlive 1 False, Op_setAlive 1 True] [] =
       Inr [bound_molecule 10 1, bound_molecule 11 0]
   \<and> bond_symmetric [bound_molecule 10 1, bound_molecule 11 0]
   \<and> bond ([bound_molecule 10 1, bound_molecule 11 0] ! 0) ! 0 = Some 1
   \<and> unbind [bound_molecule 10 1, bound_molecule 11 0] 0 0 =
       Inr ([free_molecule 10, free_molecule 11], 11, 0)
   \<and> bond_symmetric [free_molecule 10, free_molecule 11]
   \<and> store_op_on (Op_setAlive 1 False) [bound_molecule 10 1, bound_molecule 11 0] =
       Inr [bound_molecule 10 1, setAlive False (bound_molecule 11 0)]
   \<and> bond_symmetric [bound_molecule 10 1, setAlive False (bound_molecule 11 0)]
   \<and> bond_symmetric_all [bound_molecule 10 1, setAlive False (bound_molecule 11 0)]"
proof -
  have e: "bond_symmetric_all []" by code_simp
  have r1: "store_ops_on [Op_addMolecule (free_molecule 10), Op_addMolecule (free_molecule 11)] [] =
       Inr [free_molecule 10, free_molecule 11]"
    by code_simp
  have b: "bind [free_molecule 10, free_molecule 11] 0 0 1 0 =
       Inr [bound_molecule 10 1, bound_molecule 11 0]"
    by code_simp
  have r2: "store_ops_on [Op_addMolecule (free_molecule 10), Op_addMolecule (free_molecule 11),
                    Op_bind 0 0 1 0, Op_setAlive 1 False, Op_setAlive 1 True] [] =
       Inr [bound_molecule 10 1, bound_molecule 11 0]"
    by code_simp
  have n: "bond ([bound_molecule 10 1, bound_molecule 11 0] ! 0) ! 0 = Some 1"
    by code_simp
  have u: "unbind [bound_molecule 10 1, bound_molecule 11 0] 0 0 =
       Inr ([free_molecule 10, free_molecule 11], 11, 0)"
    by code_simp
  have a: "store_op_on (Op_setAlive 1 False) [bound_molecule 10 1, bound_molecule 11 0] =
       Inr [bound_molecule 10 1, setAlive False (bound_molecule 11 0)]"
    by code_simp
  note free = bond_symmetry_invariant [OF e r1, of 0 0 1 0 0 0 0]
  note bound = bond_symmetry_invariant [OF e r2, of 0 0 1 0 0 0 0]
  have s1: "bond_symmetric [bound_molecule 10 1, bound_molecule 11 0]"
    using free b by blast
  have s2: "bond_symmetric [free_molecule 10, free_molecule 11]"
    using bound u n by blast
  have s3: "bond_symmetric [bound_molecule 10 1, setAlive False (bound_molecule 11 0)]"
    "bond_symmetric_all [bound_molecule 10 1, setAlive False (bound_molecule 11 0)]"
    using bound a by blast+
  show ?thesis
    using e r1 b r2 s1 n u s2 a s3 by blast
qed

section \<open>Exit statuses\<close>

text \<open>
  C7, as the claim states it, fails: asking a non-DOR reaction for its DOR reactant
  position is called an internal error by the code itself, yet the process exits with
  status 1, not with the status 2 that the specification gives to internal errors.
\<close>

theorem getDORreactantPosition_exit_counterexample:
  "snd (getDORreactantPosition empty_console) \<noteq> Exited (spec_exit_code InternalBug)"
  by (simp add: getDORreactantPosition_def)

text \<open>
  C7, amended.  Exit status 1 is the status of model-validation failures, and the
  internal errors of NFcore.hh end the process with that same status 1, not with a
  status 2 of their own: \<^verbatim>\<open>getDORreactantPosition\<close> on a reaction that is not of type DOR,
  and \<^verbatim>\<open>getDORreactantPosition2\<close> on one that is not of type DOR2, each write their own
  first line and then ``this is an internal error, and so I will quit.'' to \<^verbatim>\<open>cerr\<close>,
  write nothing to \<^verbatim>\<open>cout\<close>, and exit with status 1; \<^verbatim>\<open>getLocalFunction\<close> writes
  ``getLocalFunction not yet implemented.'' to \<^verbatim>\<open>cout\<close>, nothing to \<^verbatim>\<open>cerr\<close>, and exits
  with status 1.
\<close>

theorem header_error_exits_use_status_1:
  "getDORreactantPosition con =
     (con\<lparr>cerr := cerr con @
         [''Trying to get DOR reactant Position from a reaction that is not of type DOR!'',
          ''this is an internal error, and so I will quit.'']\<rparr>,
      Exited (spec_exit_code ModelValidation))
   \<and> getDORreactantPosition2 con =
     (con\<lparr>cerr := cerr con @
         [''Trying to get DOR reactant Position2 from a reaction that is not of type DOR2!'',
          ''this is an internal error, and so I will quit.'']\<rparr>,
      Exited (spec_exit_code ModelValidation))
   \<and> getLocalFunction funcName con =
     (con\<lparr>cout := cout con @ [''getLocalFunction not yet implemented.'']\<rparr>,
      Exited (spec_exit_code ModelValidation))
   \<and> spec_exit_code ModelValidation = 1
   \<and> snd (getDORreactantPosition con) \<noteq> Exited 2
   \<and> snd (getDORreactantPosition2 con) \<noteq> Exited 2
   \<and> snd (getLocalFunction funcName con) \<noteq> Exited 2
   \<and> cout (fst (getDORreactantPosition con)) = cout con
   \<and> cout (fst (getDORreactantPosition2 con)) = cout con
   \<and> cerr (fst (getLocalFunction funcName con)) = cerr con"
  by (simp add: getDORreactantPosition_def getDORreactantPosition2_def getLocalFunction_def)

section \<open>The static counters are shared\<close>

text \<open>
  C8, as the claim states it, fails: with two Systems in one process, a null event
  counted in the first changes the value of \<^verbatim>\<open>NULL_EVENT_COUNTER\<close> that the second reads.
\<close>

theorem static_counter_shared_counterexample:
  "read_NULL_EVENT_COUNTER (count_null_event 0 two_systems) 1
     \<noteq> read_NULL_EVENT_COUNTER two_systems 1"
  by (simp add: read_NULL_EVENT_COUNTER_def count_null_event_def two_systems_def)

text \<open>
  C8, amended.  \<^verbatim>\<open>NULL_EVENT_COUNTER\<close> and \<^verbatim>\<open>uniqueIdCount\<close> are static members, one
  object each for the whole process and not state of a System: any two Systems read the
  same \<^verbatim>\<open>NULL_EVENT_COUNTER\<close>, and whatever update an event in System \<open>s\<close> makes to a
  counter (a null event counted, a unique identifier handed out) is applied to the value
  that every System \<open>t\<close> reads, for \<^verbatim>\<open>NULL_EVENT_COUNTER\<close> as for \<^verbatim>\<open>getUniqueIdCount()\<close>.
\<close>

theorem static_counters_are_process_wide:
  "read_NULL_EVENT_COUNTER p s = read_NULL_EVENT_COUNTER p t
   \<and> read_NULL_EVENT_COUNTER (update_NULL_EVENT_COUNTER f s p) t = f (read_NULL_EVENT_COUNTER p t)
   \<and> read_NULL_EVENT_COUNTER (count_null_event s p) t
       = read_NULL_EVENT_COUNTER (count_null_event s p) s
   \<and> getUniqueIdCount (update_uniqueIdCount g s p) = g (getUniqueIdCount p)
   \<and> read_NULL_EVENT_COUNTER (update_uniqueIdCount g s p) t = read_NULL_EVENT_COUNTER p t
   \<and> getUniqueIdCount (update_NULL_EVENT_COUNTER f s p) = getUniqueIdCount p"
  by (simp add: read_NULL_EVENT_COUNTER_def update_NULL_EVENT_COUNTER_def count_null_event_def
      getUniqueIdCount_def update_uniqueIdCount_def)

end
